theory Spec2Isabelle
  imports Complex_Main
begin

section \<open>Python values\<close>

text \<open>
  The module \<^verbatim>\<open>parkrun.py\<close> is Python 2 code: it indexes the result of \<^verbatim>\<open>map\<close>,
  adds a list to one, and builds \<^verbatim>\<open>range\<close> from the quotient \<^verbatim>\<open>100/nCats\<close>. The embedding
  follows Python 2: \<^verbatim>\<open>map\<close> is eager and returns a list, \<^verbatim>\<open>/\<close> on two integers is
  floor division, \<^verbatim>\<open>round\<close> rounds halves away from zero and returns a float.

  Integers are \<open>int\<close>. Floats are idealised as exact rationals (\<open>rat\<close>): no rounding
  error, no overflow, no infinities; the one non-number that the tables hold, NaN, is a
  value of its own in the type of table cells below.

  An exception is a value of \<open>py_error\<close>; a computation that may raise returns
  \<open>py_error + 'a\<close>, with \<open>Inl\<close> for the exception.
\<close>

datatype py_error = ValueError | IndexError | KeyError | ZeroDivisionError | TypeError | IOError

definition and_then :: "py_error + 'a \<Rightarrow> ('a \<Rightarrow> py_error + 'b) \<Rightarrow> py_error + 'b" where
  "and_then r f = (case r of Inl e \<Rightarrow> Inl e | Inr v \<Rightarrow> f v)"

text \<open>\<^verbatim>\<open>xs[i]\<close> for a literal index \<open>i \<ge> 0\<close>: IndexError out of range.\<close>

definition py_get :: "'a list \<Rightarrow> nat \<Rightarrow> py_error + 'a" where
  "py_get xs i = (if i < length xs then Inr (xs ! i) else Inl IndexError)"

subsection \<open>Strings\<close>

definition is_space :: "char \<Rightarrow> bool" where
  "is_space c = (c \<in> set [CHR '' '', CHR 0x09, CHR 0x0A, CHR 0x0B, CHR 0x0C, CHR 0x0D])"

definition is_digit :: "char \<Rightarrow> bool" where
  "is_digit c = (c \<in> set ''0123456789'')"

text \<open>\<^verbatim>\<open>s.strip(chars)\<close>: every leading and every trailing character of the given kind goes.\<close>

definition strip_chars :: "(char \<Rightarrow> bool) \<Rightarrow> string \<Rightarrow> string" where
  "strip_chars p s = rev (dropWhile p (rev (dropWhile p s)))"

text \<open>\<^verbatim>\<open>s.split(d)\<close> for a one-character separator: never empty, \<^verbatim>\<open>''.split(':') == ['']\<close>.\<close>

fun split_on :: "char \<Rightarrow> string \<Rightarrow> string list" where
  "split_on d [] = [[]]"
| "split_on d (c # cs) =
     (if c = d then [] # split_on d cs
      else (case split_on d cs of w # ws \<Rightarrow> (c # w) # ws | [] \<Rightarrow> [[c]]))"

subsection \<open>Reading and printing numbers\<close>

definition digit_val :: "char \<Rightarrow> nat" where
  "digit_val c = of_char c - 48"

definition digit_char :: "nat \<Rightarrow> char" where
  "digit_char d = ''0123456789'' ! d"

definition digits_val :: "string \<Rightarrow> nat" where
  "digits_val s = foldl (\<lambda>a c. 10 * a + digit_val c) 0 s"

definition unsigned_digits :: "string \<Rightarrow> nat option" where
  "unsigned_digits s = (if s \<noteq> [] \<and> list_all is_digit s then Some (digits_val s) else None)"

text \<open>
  \<^verbatim>\<open>int(s)\<close> on a string, base 10: surrounding whitespace is ignored, then an optional
  sign and at least one decimal digit; anything else is a ValueError (\<open>None\<close> here).
\<close>

definition py_int :: "string \<Rightarrow> int option" where
  "py_int s =
     (case strip_chars is_space s of
        [] \<Rightarrow> None
      | c # r \<Rightarrow>
          if c = CHR ''-'' then map_option (\<lambda>n. - int n) (unsigned_digits r)
          else if c = CHR ''+'' then map_option int (unsigned_digits r)
          else map_option int (unsigned_digits (c # r)))"

text \<open>
  \<^verbatim>\<open>float(s)\<close> on a string: surrounding whitespace is ignored, then an optional sign, a
  decimal mantissa (digits with an optional point, at least one digit) and an optional
  exponent \<^verbatim>\<open>e\<close>/\<^verbatim>\<open>E\<close> with an optional sign and at least one digit. The value is exact.
  The spellings \<^verbatim>\<open>inf\<close>, \<^verbatim>\<open>infinity\<close> and \<^verbatim>\<open>nan\<close> denote floats that are no rationals and
  are not literals of this model.
\<close>

definition exponent_val :: "string \<Rightarrow> int option" where
  "exponent_val s =
     (case s of
        [] \<Rightarrow> Some 0
      | c # r \<Rightarrow>
          if c = CHR ''e'' \<or> c = CHR ''E'' then
            (case r of
               [] \<Rightarrow> None
             | d # r' \<Rightarrow>
                 if d = CHR ''-'' then map_option (\<lambda>n. - int n) (unsigned_digits r')
                 else if d = CHR ''+'' then map_option int (unsigned_digits r')
                 else map_option int (unsigned_digits r))
          else None)"

definition unsigned_float :: "string \<Rightarrow> rat option" where
  "unsigned_float s =
     (let ip = takeWhile is_digit s;
          r1 = dropWhile is_digit s;
          fp = (case r1 of [] \<Rightarrow> [] | c # r \<Rightarrow> if c = CHR ''.'' then takeWhile is_digit r else []);
          r2 = (case r1 of [] \<Rightarrow> [] | c # r \<Rightarrow> if c = CHR ''.'' then dropWhile is_digit r else r1)
      in if ip = [] \<and> fp = [] then None
         else map_option
                (\<lambda>e. (of_nat (digits_val ip) + of_nat (digits_val fp) / 10 ^ length fp)
                      * (if 0 \<le> e then 10 ^ nat e else 1 / 10 ^ nat (- e)))
                (exponent_val r2))"

definition py_float :: "string \<Rightarrow> rat option" where
  "py_float s =
     (case strip_chars is_space s of
        [] \<Rightarrow> None
      | c # r \<Rightarrow>
          if c = CHR ''-'' then map_option uminus (unsigned_float r)
          else if c = CHR ''+'' then unsigned_float r
          else unsigned_float (c # r))"

text \<open>\<^verbatim>\<open>str(n)\<close> for an integer: decimal digits, a minus sign for a negative one.\<close>

fun str_nat :: "nat \<Rightarrow> string" where
  "str_nat n = (if n < 10 then [digit_char n] else str_nat (n div 10) @ [digit_char (n mod 10)])"

declare str_nat.simps [simp del]

definition str_int :: "int \<Rightarrow> string" where
  "str_int i = (if i < 0 then CHR ''-'' # str_nat (nat (- i)) else str_nat (nat i))"

text \<open>\<^verbatim>\<open>int(x)\<close> on a float truncates towards zero.\<close>

definition py_trunc :: "rat \<Rightarrow> int" where
  "py_trunc x = (if 0 \<le> x then \<lfloor>x\<rfloor> else \<lceil>x\<rceil>)"

text \<open>
  \<^verbatim>\<open>round(v)\<close> in Python 2 rounds to the nearest integer, halves away from zero, and
  returns a float that keeps the sign of \<open>v\<close>: \<^verbatim>\<open>round(-0.2)\<close> is \<^verbatim>\<open>-0.0\<close>. The result is
  given as its sign bit and its magnitude.
\<close>

definition py_round :: "rat \<Rightarrow> bool \<times> nat" where
  "py_round v = (v < 0, nat \<lfloor>\<bar>v\<bar> + 1 / 2\<rfloor>)"

text \<open>
  The format \<^verbatim>\<open>{:02.0f}\<close> of a float of integral value: no decimals, zero-padded to two
  characters, the sign counted in the width (\<^verbatim>\<open>-0.0\<close> gives \<^verbatim>\<open>-0\<close>, \<^verbatim>\<open>-5.0\<close> gives \<^verbatim>\<open>-5\<close>).
\<close>

definition format_02_0f :: "bool \<times> nat \<Rightarrow> string" where
  "format_02_0f r =
     (case r of (neg, m) \<Rightarrow>
        if neg then CHR ''-'' # str_nat m
        else if m < 10 then CHR ''0'' # str_nat m
        else str_nat m)"

section \<open>Converter functions\<close>

text \<open>\<^verbatim>\<open>convertPercent = lambda x: float(x.strip("%"))/100.\<close>\<close>

definition convertPercent :: "string \<Rightarrow> py_error + rat" where
  "convertPercent x =
     (case py_float (strip_chars (\<lambda>c. c = CHR ''%'') x) of
        None \<Rightarrow> Inl ValueError
      | Some v \<Rightarrow> Inr (v / 100))"

text \<open>
  \<^verbatim>\<open>timeString_to_minutes\<close>: the conversion \<^verbatim>\<open>map(int, x.split(':'))\<close> is outside the
  \<^verbatim>\<open>try\<close>, so a component that is no integer raises ValueError. The three-component
  formula is tried first; whatever it raises (here only the IndexError of a missing
  component) is swallowed by the bare \<^verbatim>\<open>except\<close>, which evaluates the two-component
  formula, and that one raises IndexError for a single component.
\<close>

fun map_int :: "string list \<Rightarrow> py_error + int list" where
  "map_int [] = Inr []"
| "map_int (s # ss) =
     (case py_int s of
        None \<Rightarrow> Inl ValueError
      | Some i \<Rightarrow> and_then (map_int ss) (\<lambda>is. Inr (i # is)))"

definition timeString_to_minutes :: "string \<Rightarrow> py_error + rat" where
  "timeString_to_minutes x =
     and_then (map_int (split_on CHR '':'' x)) (\<lambda>xlist.
       case and_then (py_get xlist 0) (\<lambda>a.
            and_then (py_get xlist 1) (\<lambda>b.
            and_then (py_get xlist 2) (\<lambda>c.
              Inr (of_int (60 * a + b) + of_int c / 60)))) of
         Inr time \<Rightarrow> Inr time
       | Inl _ \<Rightarrow>
            and_then (py_get xlist 0) (\<lambda>a.
            and_then (py_get xlist 1) (\<lambda>b.
              Inr (of_int a + of_int b / 60))))"

text \<open>\<^verbatim>\<open>minutes_to_timeString\<close>: \<^verbatim>\<open>'{}:{:02.0f}'.format(int(x), round((x-int(x))*60))\<close>.\<close>

definition minutes_to_timeString :: "rat \<Rightarrow> string" where
  "minutes_to_timeString x =
     str_int (py_trunc x) @ '':'' @ format_02_0f (py_round ((x - of_int (py_trunc x)) * 60))"

text \<open>The integer a rounded float stands for, and the durations whose seconds need no rounding.\<close>

definition signed_val :: "bool \<times> nat \<Rightarrow> int" where
  "signed_val r = (case r of (neg, m) \<Rightarrow> if neg then - int m else int m)"

definition whole_seconds :: "rat \<Rightarrow> bool" where
  "whole_seconds x = (let v = (x - of_int (py_trunc x)) * 60 in of_int \<lfloor>v\<rfloor> = v)"

section \<open>Tables\<close>

text \<open>
  A pandas DataFrame is modelled by its column names, in order, and its rows; a row has
  its index label (the Position of a results table) and its cells by column name. A cell
  holds an integer, a float, a string or NaN. A cell that a row lacks in a column of its
  table reads as NaN, as in pandas after tables of different columns are appended.
\<close>

datatype cell = IntV int | FloatV rat | StrV string | NaN

record row =
  label :: cell
  cells :: "string \<rightharpoonup> cell"

record frame =
  columns :: "string list"
  rows :: "row list"

definition cell_at :: "row \<Rightarrow> string \<Rightarrow> cell" where
  "cell_at r c = (case cells r c of None \<Rightarrow> NaN | Some v \<Rightarrow> v)"

definition is_float :: "cell \<Rightarrow> bool" where
  "is_float v = (case v of FloatV _ \<Rightarrow> True | NaN \<Rightarrow> True | _ \<Rightarrow> False)"

definition is_int :: "cell \<Rightarrow> bool" where
  "is_int v = (case v of IntV _ \<Rightarrow> True | _ \<Rightarrow> False)"

text \<open>\<^verbatim>\<open>df[c]\<close>: the cells of a column, KeyError when the table has no such column.\<close>

definition column :: "frame \<Rightarrow> string \<Rightarrow> py_error + cell list" where
  "column f c = (if c \<in> set (columns f) then Inr (map (\<lambda>r. cell_at r c) (rows f)) else Inl KeyError)"

text \<open>
  \<^verbatim>\<open>df[c] = values\<close>: the column is overwritten, or added after the others. Every
  assignment of this module gives one value for each row of the table.
\<close>

definition set_cell :: "string \<Rightarrow> row \<Rightarrow> cell \<Rightarrow> row" where
  "set_cell c r v = r\<lparr>cells := (cells r)(c \<mapsto> v)\<rparr>"

definition set_column :: "frame \<Rightarrow> string \<Rightarrow> cell list \<Rightarrow> frame" where
  "set_column f c vs =
     \<lparr>columns = (if c \<in> set (columns f) then columns f else columns f @ [c]),
      rows = map2 (set_cell c) (rows f) vs\<rparr>"

text \<open>\<^verbatim>\<open>df[mask]\<close> with a boolean mask computed row by row.\<close>

definition filter_rows :: "(row \<Rightarrow> bool) \<Rightarrow> frame \<Rightarrow> frame" where
  "filter_rows p f = f\<lparr>rows := filter p (rows f)\<rparr>"

text \<open>\<^verbatim>\<open>df.drop(names, axis=1)\<close>: the named columns go; a name that is no column is an error.\<close>

definition drop_columns :: "string list \<Rightarrow> frame \<Rightarrow> py_error + frame" where
  "drop_columns names f =
     (if list_all (\<lambda>n. n \<in> set (columns f)) names
      then Inr \<lparr>columns = filter (\<lambda>c. c \<notin> set names) (columns f),
                rows = map (\<lambda>r. r\<lparr>cells := (\<lambda>c. if c \<in> set names then None else cells r c)\<rparr>) (rows f)\<rparr>
      else Inl ValueError)"

text \<open>\<^verbatim>\<open>a.append(b)\<close>: the rows of \<open>b\<close> after those of \<open>a\<close>, the columns of both.\<close>

definition frame_append :: "frame \<Rightarrow> frame \<Rightarrow> frame" where
  "frame_append a b =
     \<lparr>columns = columns a @ filter (\<lambda>c. c \<notin> set (columns a)) (columns b),
      rows = rows a @ rows b\<rparr>"

fun map_result :: "('a \<Rightarrow> py_error + 'b) \<Rightarrow> 'a list \<Rightarrow> py_error + 'b list" where
  "map_result f [] = Inr []"
| "map_result f (x # xs) = and_then (f x) (\<lambda>y. and_then (map_result f xs) (\<lambda>ys. Inr (y # ys)))"

text \<open>
  \<^verbatim>\<open>df[names] = df[names].astype(t)\<close>: every cell of the named columns is converted; the
  first cell that cannot be converted raises.
\<close>

fun astype_row :: "(cell \<Rightarrow> py_error + cell) \<Rightarrow> string list \<Rightarrow> row \<Rightarrow> py_error + row" where
  "astype_row conv [] r = Inr r"
| "astype_row conv (n # ns) r =
     and_then (conv (cell_at r n)) (\<lambda>v. astype_row conv ns (set_cell n r v))"

definition astype :: "(cell \<Rightarrow> py_error + cell) \<Rightarrow> string list \<Rightarrow> frame \<Rightarrow> py_error + frame" where
  "astype conv names f =
     (if list_all (\<lambda>n. n \<in> set (columns f)) names
      then and_then (map_result (astype_row conv names) (rows f)) (\<lambda>rs. Inr (f\<lparr>rows := rs\<rparr>))
      else Inl KeyError)"

text \<open>
  The conversions of \<^verbatim>\<open>astype('float')\<close> and \<^verbatim>\<open>astype('int')\<close> on one cell: NaN is a float and
  has no integer value; a float is truncated to an integer; a string is read as a number.
\<close>

definition to_float :: "cell \<Rightarrow> py_error + cell" where
  "to_float v =
     (case v of
        IntV i \<Rightarrow> Inr (FloatV (of_int i))
      | FloatV x \<Rightarrow> Inr (FloatV x)
      | NaN \<Rightarrow> Inr NaN
      | StrV s \<Rightarrow> (case py_float s of None \<Rightarrow> Inl ValueError | Some x \<Rightarrow> Inr (FloatV x)))"

definition to_int :: "cell \<Rightarrow> py_error + cell" where
  "to_int v =
     (case v of
        IntV i \<Rightarrow> Inr (IntV i)
      | FloatV x \<Rightarrow> Inr (IntV (py_trunc x))
      | NaN \<Rightarrow> Inl ValueError
      | StrV s \<Rightarrow> (case py_int s of None \<Rightarrow> Inl ValueError | Some i \<Rightarrow> Inr (IntV i)))"

section \<open>Reading the results file\<close>

text \<open>
  \<^verbatim>\<open>pd.read_csv(infile, sep='\t', skiprows=.., skipfooter=.., header=None, engine='python',
  names=colNames, index_col='Position', converters={..})\<close> on the lines of the file:
  \<^item> the first \<open>skiprows\<close> lines and the last \<open>skipfooter\<close> lines are left out, then the
    blank lines; every other line is a row, split at the tabs (quoting is not modelled);
  \<^item> a row must have the 11 fields of \<open>colNames\<close> (pandas raises on a longer row; a
    shorter one is rejected here as well);
  \<^item> the columns Time and Age Grade go through their converters, cell by cell; where
    a converter raises ValueError on one of pandas' strings for a missing value, the cell is
    NaN, any other failure is the failure of the import;
  \<^item> every other column gets the type pandas infers for it: integers when every field
    is an integer, floats when every field is a number or missing, strings otherwise,
    a missing field being NaN.
\<close>

definition colNames :: "string list" where
  "colNames = [''Position'', ''Runner'', ''Time'', ''Age Cat'', ''Age Grade'', ''Gender'',
               ''Gender Pos'', ''Club'', ''Note'', ''Total Runs'', ''Badges'']"

definition na_values :: "string list" where
  "na_values = ['''', ''#N/A'', ''#N/A N/A'', ''#NA'', ''-1.#IND'', ''-1.#QNAN'', ''-NaN'', ''-nan'',
                ''1.#IND'', ''1.#QNAN'', ''N/A'', ''NA'', ''NULL'', ''NaN'', ''nan'']"

definition blank_line :: "string list \<Rightarrow> bool" where
  "blank_line fs = (case fs of [f] \<Rightarrow> list_all is_space f | _ \<Rightarrow> False)"

definition data_lines :: "nat \<Rightarrow> nat \<Rightarrow> string list \<Rightarrow> string list list" where
  "data_lines skiprows skipfooter lines =
     (let rest = drop skiprows lines
      in filter (\<lambda>fs. \<not> blank_line fs)
           (map (split_on (CHR 0x09)) (take (length rest - skipfooter) rest)))"

datatype kind = IntCol | FloatCol | ObjCol

definition infer_kind :: "string list \<Rightarrow> kind" where
  "infer_kind vs =
     (if list_all (\<lambda>v. py_int v \<noteq> None) vs then IntCol
      else if list_all (\<lambda>v. v \<in> set na_values \<or> py_float v \<noteq> None) vs then FloatCol
      else ObjCol)"

definition infer_cell :: "kind \<Rightarrow> string \<Rightarrow> cell" where
  "infer_cell k v =
     (case k of
        IntCol \<Rightarrow> (case py_int v of Some i \<Rightarrow> IntV i | None \<Rightarrow> NaN)
      | FloatCol \<Rightarrow>
          (if v \<in> set na_values then NaN
           else (case py_float v of Some x \<Rightarrow> FloatV x | None \<Rightarrow> NaN))
      | ObjCol \<Rightarrow> (if v \<in> set na_values then NaN else StrV v))"

definition infer_column :: "string list \<Rightarrow> cell list" where
  "infer_column vs = map (infer_cell (infer_kind vs)) vs"

definition convert_cell :: "(string \<Rightarrow> py_error + rat) \<Rightarrow> string \<Rightarrow> py_error + cell" where
  "convert_cell conv v =
     (case conv v of
        Inr x \<Rightarrow> Inr (FloatV x)
      | Inl e \<Rightarrow> if e = ValueError \<and> v \<in> set na_values then Inr NaN else Inl e)"

definition frame_of_columns :: "cell list \<Rightarrow> (string \<times> cell list) list \<Rightarrow> frame" where
  "frame_of_columns idx cols =
     \<lparr>columns = map fst cols,
      rows = map (\<lambda>i. \<lparr>label = idx ! i, cells = map_of (map (\<lambda>(n, c). (n, c ! i)) cols)\<rparr>)
                 [0..<length idx]\<rparr>"

definition read_csv :: "string list \<Rightarrow> nat \<Rightarrow> nat \<Rightarrow> py_error + frame" where
  "read_csv lines skiprows skipfooter =
     (let content = data_lines skiprows skipfooter lines;
          field = (\<lambda>j. map (\<lambda>fs. fs ! j) content)
      in if list_all (\<lambda>fs. length fs = length colNames) content then
           and_then (map_result (convert_cell timeString_to_minutes) (field 2)) (\<lambda>times.
           and_then (map_result (convert_cell convertPercent) (field 4)) (\<lambda>grades.
             Inr (frame_of_columns (infer_column (field 0))
                    [(''Runner'', infer_column (field 1)),
                     (''Time'', times),
                     (''Age Cat'', infer_column (field 3)),
                     (''Age Grade'', grades),
                     (''Gender'', infer_column (field 5)),
                     (''Gender Pos'', infer_column (field 6)),
                     (''Club'', infer_column (field 7)),
                     (''Note'', infer_column (field 8)),
                     (''Total Runs'', infer_column (field 9)),
                     (''Badges'', infer_column (field 10))])))
         else Inl ValueError)"

section \<open>importResults\<close>

text \<open>
  What \<^verbatim>\<open>report=True\<close> prints, line by line, as the values that are formatted (the text
  formatting of the numbers is not modelled). The arguments of a \<^verbatim>\<open>print\<close> are evaluated
  before it prints, so a division by zero leaves the lines printed before it.
\<close>

datatype report_line =
    ImportOfFile string
  | NumberOfRunners nat
  | NumberOfValidEntries int
  | NumberOfUnknowns nat rat
  | NumberOfMaleRunners nat rat

text \<open>\<^verbatim>\<open>os.path.basename\<close>, for paths with \<^verbatim>\<open>/\<close> as separator.\<close>

definition basename :: "string \<Rightarrow> string" where
  "basename p = last (split_on CHR ''/'' p)"

definition is_unknown :: "row \<Rightarrow> bool" where
  "is_unknown r = (cell_at r ''Runner'' = StrV ''Unknown'')"

definition is_male :: "row \<Rightarrow> bool" where
  "is_male r = (cell_at r ''Gender'' = StrV ''M'')"

definition import_report :: "string \<Rightarrow> nat \<Rightarrow> int \<Rightarrow> nat \<Rightarrow> nat \<Rightarrow> report_line list \<times> py_error option" where
  "import_report infile totalRunners validEntries totalUnknowns maleRunners =
     (let l3 = [ImportOfFile (basename infile), NumberOfRunners totalRunners,
                NumberOfValidEntries validEntries]
      in if totalRunners = 0 then (l3, Some ZeroDivisionError)
         else
           let l4 = l3 @ [NumberOfUnknowns totalUnknowns
                            (100 * of_nat totalUnknowns / of_nat totalRunners)]
           in if validEntries = 0 then (l4, Some ZeroDivisionError)
              else (l4 @ [NumberOfMaleRunners maleRunners
                            (100 * of_nat maleRunners / of_int validEntries)], None))"

text \<open>
  \<^verbatim>\<open>importResults(infile, skiprows=13, skipfooter=36, removeUnknowns=True, report=False)\<close>.
  The file system is a map from paths to the lines of the files. The call of
  \<^verbatim>\<open>read_csv\<close> is written with the literals \<^verbatim>\<open>skiprows=13, skipfooter=36\<close>: the two
  parameters of the function are not used. The result is what was printed and the
  returned table, or the exception.
\<close>

definition importResults ::
  "(string \<rightharpoonup> string list) \<Rightarrow> string \<Rightarrow> nat \<Rightarrow> nat \<Rightarrow> bool \<Rightarrow> bool
     \<Rightarrow> report_line list \<times> (py_error + frame)" where
  "importResults fs infile skiprows skipfooter removeUnknowns report =
     (case fs infile of
        None \<Rightarrow> ([], Inl IOError)
      | Some lines \<Rightarrow>
          (case and_then (read_csv lines 13 36) (drop_columns [''Club'', ''Note'', ''Badges'']) of
             Inl e \<Rightarrow> ([], Inl e)
           | Inr results \<Rightarrow>
               let totalRunners = length (rows results);
                   totalUnknowns = length (filter is_unknown (rows results));
                   validEntries = int totalRunners - int totalUnknowns;
                   maleRunners = length (filter is_male (rows results))
               in (case and_then (astype to_float [''Time'', ''Age Grade''] results) (\<lambda>results.
                          if removeUnknowns
                          then astype to_int [''Gender Pos'', ''Total Runs'']
                                 (filter_rows (\<lambda>r. \<not> is_unknown r) results)
                          else Inr results) of
                     Inl e \<Rightarrow> ([], Inl e)
                   | Inr results \<Rightarrow>
                       if report then
                         (case import_report infile totalRunners validEntries totalUnknowns maleRunners of
                            (out, Some e) \<Rightarrow> (out, Inl e)
                          | (out, None) \<Rightarrow> (out, Inr results))
                       else ([], Inr results))))"

text \<open>The table as read and cut to its seven columns, before any row is filtered.\<close>

definition parsed_results :: "string list \<Rightarrow> py_error + frame" where
  "parsed_results lines =
     and_then (read_csv lines 13 36) (drop_columns [''Club'', ''Note'', ''Badges''])"

text \<open>
  A small results file for the examples: 13 banner lines, a finisher, an unknown runner
  with empty fields, and 36 footer lines.
\<close>

definition tsv :: "string list \<Rightarrow> string" where
  "tsv fs = (case fs of [] \<Rightarrow> [] | f # gs \<Rightarrow> f @ concat (map (\<lambda>g. CHR 0x09 # g) gs))"

definition example_file :: "string list" where
  "example_file =
     replicate 13 ''banner''
     @ [tsv [''1'', ''John Smith'', ''22:15'', ''SM30-34'', ''75%'', ''M'', ''1'', ''Club'', '''', ''12'', ''''],
        tsv [''2'', ''Unknown'', '''', '''', '''', '''', '''', '''', '''', '''', '''']]
     @ replicate 36 ''footer''"

text \<open>A file of 50 lines, every one of them a data row, with no banner and no footer.\<close>

definition rows_only_file :: "string list" where
  "rows_only_file =
     replicate 50 (tsv [''1'', ''John Smith'', ''22:15'', ''SM30-34'', ''75%'', ''M'', ''1'', ''Club'', '''', ''12'', ''''])"

section \<open>Random sampling\<close>

text \<open>
  \<^verbatim>\<open>DataFrame.sample(n, weights, replace=False)\<close> draws with the ambient random generator.
  The generator is a parameter here: an arbitrary stream of naturals, the \<open>k\<close>-th of
  which decides the \<open>k\<close>-th draw. A draw picks a row with a probability proportional to
  its weight, by the place a random point takes among the cumulated weights; a row that
  is drawn gets the weight 0 for the draws after it. What is proved below holds for every
  stream, that is, for every outcome of the sampling.
\<close>

type_synonym rng = "nat \<Rightarrow> nat"

definition advance :: "nat \<Rightarrow> rng \<Rightarrow> rng" where
  "advance k g = (\<lambda>i. g (i + k))"

fun pick :: "nat list \<Rightarrow> nat \<Rightarrow> nat" where
  "pick [] t = 0"
| "pick (w # ws) t = (if t < w then 0 else Suc (pick ws (t - w)))"

fun draw :: "rng \<Rightarrow> nat \<Rightarrow> nat list \<Rightarrow> py_error + nat list" where
  "draw g 0 ws = Inr []"
| "draw g (Suc n) ws =
     (if sum_list ws = 0 then Inl ValueError
      else
        let i = pick ws (g 0 mod sum_list ws)
        in and_then (draw (advance 1 g) n (ws[i := 0])) (\<lambda>is. Inr (i # is)))"

declare draw.simps(2) [simp del]

text \<open>
  The sample of a table: ValueError for a negative \<open>n\<close>, for more rows than there are
  (without weights), for weights that sum to zero, and for more rows than there are
  positive weights. Weights are given as the list of the weights of the rows.
\<close>

definition take_rows :: "frame \<Rightarrow> nat list \<Rightarrow> frame" where
  "take_rows f is = f\<lparr>rows := map (\<lambda>i. rows f ! i) is\<rparr>"

definition sample :: "rng \<Rightarrow> int \<Rightarrow> nat list option \<Rightarrow> frame \<Rightarrow> py_error + frame" where
  "sample g n weights f =
     (if n < 0 then Inl ValueError
      else
        (case weights of
           None \<Rightarrow>
             if length (rows f) < nat n then Inl ValueError
             else and_then (draw g (nat n) (replicate (length (rows f)) 1))
                    (\<lambda>is. Inr (take_rows f is))
         | Some ws \<Rightarrow>
             if sum_list ws = 0 then Inl ValueError
             else and_then (draw g (nat n) ws) (\<lambda>is. Inr (take_rows f is))))"

section \<open>resample_AgeCat\<close>

definition selectCats :: "string list" where
  "selectCats = [''SM25-29'', ''SM30-34'',
                 ''SW25-29'', ''SW30-34'',
                 ''VM35-39'', ''VM40-44'', ''VM45-49'', ''VM50-54'', ''VM55-59'',
                 ''VW35-39'', ''VW40-44'', ''VW45-49'', ''VW50-54'', ''VW55-59'']"

definition has_cat :: "string \<Rightarrow> row \<Rightarrow> bool" where
  "has_cat cat r = (cell_at r ''Age Cat'' = StrV cat)"

text \<open>
  One turn of the loop for each category. Whatever the body raises (the KeyError of a
  table without the column, the ValueError of \<^verbatim>\<open>sample\<close>) is swallowed by the bare
  \<^verbatim>\<open>except\<close>, and the loop goes on with \<^verbatim>\<open>newResults\<close> as it was.
\<close>

fun resample_loop :: "rng \<Rightarrow> frame \<Rightarrow> int \<Rightarrow> string list \<Rightarrow> frame \<Rightarrow> frame" where
  "resample_loop g results nsamples [] newResults = newResults"
| "resample_loop g results nsamples (cat # cats) newResults =
     (case and_then (column results ''Age Cat'')
             (\<lambda>_. sample g nsamples None (filter_rows (has_cat cat) results)) of
        Inl _ \<Rightarrow> resample_loop g results nsamples cats newResults
      | Inr s \<Rightarrow>
          resample_loop (advance (nat nsamples) g) results nsamples cats (frame_append newResults s))"

text \<open>
  \<^verbatim>\<open>resample_AgeCat(results, nsamples=5)\<close>. The result is the table passed in, as the call
  leaves it, and the table returned.
\<close>

definition resample_AgeCat :: "rng \<Rightarrow> frame \<Rightarrow> int \<Rightarrow> frame \<times> frame" where
  "resample_AgeCat g results nsamples =
     (results, resample_loop g results nsamples selectCats \<lparr>columns = [], rows = []\<rparr>)"

text \<open>
  What one category may add to the result: rows of the table that are of the category;
  none when the table has fewer than \<open>n\<close> of them, and otherwise none or \<open>n\<close>, and
  \<open>n\<close> of them whenever the table has the column and \<open>n\<close> is a possible size.
\<close>

definition contributes :: "frame \<Rightarrow> int \<Rightarrow> string \<Rightarrow> row list \<Rightarrow> bool" where
  "contributes t n cat ch =
     ((\<forall>r\<in>set ch. has_cat cat r \<and> r \<in> set (rows t))
      \<and> (int (length (filter (has_cat cat) (rows t))) < n \<longrightarrow> ch = [])
      \<and> (ch = [] \<or> int (length ch) = n)
      \<and> (''Age Cat'' \<in> set (columns t) \<and> 0 \<le> n \<and> n \<le> int (length (filter (has_cat cat) (rows t)))
            \<longrightarrow> int (length ch) = n))"

section \<open>resample\<close>

text \<open>\<^verbatim>\<open>range(start, stop, step)\<close>; a step of 0 is a ValueError.\<close>

definition py_range :: "int \<Rightarrow> int \<Rightarrow> int \<Rightarrow> py_error + int list" where
  "py_range start stop step =
     (if step = 0 then Inl ValueError
      else if 0 < step then
        Inr (map (\<lambda>k. start + int k * step) [0..<nat ((stop - start + step - 1) div step)])
      else
        Inr (map (\<lambda>k. start + int k * step) [0..<nat ((start - stop - step - 1) div (- step))]))"

text \<open>\<^verbatim>\<open>results['Age Grade']*100\<close>, cell by cell; a string is repeated.\<close>

definition times100 :: "cell \<Rightarrow> cell" where
  "times100 v =
     (case v of
        IntV i \<Rightarrow> IntV (i * 100)
      | FloatV x \<Rightarrow> FloatV (x * 100)
      | StrV s \<Rightarrow> StrV (concat (replicate 100 s))
      | NaN \<Rightarrow> NaN)"

text \<open>
  \<^verbatim>\<open>pd.cut(values, bins=edges, labels=labels)\<close>: the edges must not decrease and there must
  be one label less than edges. A value \<open>v\<close> with \<open>edges[i] < v \<le> edges[i+1]\<close> gets the
  label \<open>i\<close>; a value at or below the first edge or above the last one, and NaN, get NaN.
  A string compares above every number in Python 2 and so lies above the last edge.
\<close>

definition cut_cell :: "int list \<Rightarrow> int list \<Rightarrow> cell \<Rightarrow> cell" where
  "cut_cell bins labels v =
     (let place = (\<lambda>x. length (filter (\<lambda>b. of_int b < x) bins));
          ids = (case v of
                   IntV i \<Rightarrow> place (of_int i)
                 | FloatV x \<Rightarrow> place x
                 | StrV s \<Rightarrow> length bins
                 | NaN \<Rightarrow> 0)
      in if ids = 0 \<or> ids = length bins then NaN else IntV (labels ! (ids - 1)))"

definition pd_cut :: "cell list \<Rightarrow> int list \<Rightarrow> int list \<Rightarrow> py_error + cell list" where
  "pd_cut xs bins labels =
     (if \<not> sorted bins then Inl ValueError
      else if length labels + 1 \<noteq> length bins then Inl ValueError
      else Inr (map (cut_cell bins labels) xs))"

text \<open>
  The column \<^verbatim>\<open>AG_Cat\<close> of a table: \<^verbatim>\<open>pd.cut(results['Age Grade']*100,
  bins=range(0,100+100/nCats,100/nCats), labels=range(0,nCats))\<close>, with the floor division
  of Python 2 and its ZeroDivisionError.
\<close>

definition ag_cat :: "frame \<Rightarrow> int \<Rightarrow> py_error + cell list" where
  "ag_cat f nCats =
     and_then (column f ''Age Grade'') (\<lambda>grades.
       if nCats = 0 then Inl ZeroDivisionError
       else
         and_then (py_range 0 (100 + 100 div nCats) (100 div nCats)) (\<lambda>bins.
         and_then (py_range 0 nCats 1) (\<lambda>labels.
           pd_cut (map times100 grades) bins labels)))"

text \<open>
  \<^verbatim>\<open>value_counts()\<close> of a categorical column has an entry for every label, also for a label
  that no row has; \<^verbatim>\<open>counts[x]\<close> is a KeyError for a NaN.
\<close>

definition value_counts :: "int list \<Rightarrow> cell list \<Rightarrow> (int \<times> nat) list" where
  "value_counts labels cats = map (\<lambda>l. (l, length (filter (\<lambda>c. c = IntV l) cats))) labels"

definition counts_at :: "(int \<times> nat) list \<Rightarrow> cell \<Rightarrow> py_error + nat" where
  "counts_at counts x =
     (case x of
        IntV l \<Rightarrow> (case map_of counts l of None \<Rightarrow> Inl KeyError | Some n \<Rightarrow> Inr n)
      | _ \<Rightarrow> Inl KeyError)"

definition count_cells :: "nat list \<Rightarrow> cell list" where
  "count_cells ws = map (\<lambda>w. IntV (int w)) ws"

text \<open>
  \<^verbatim>\<open>resample(results1, results2, nsamples=50, nCats=10)\<close>. The assignments to
  \<^verbatim>\<open>results1['AG_Cat']\<close>, \<^verbatim>\<open>results1['weights']\<close>, \<^verbatim>\<open>results2['AG_Cat']\<close> and
  \<^verbatim>\<open>results2['weights']\<close> change the two tables of the caller, which are taken to be two
  different objects. The result is the two tables as the call leaves them (also when it
  raises, with the assignments done so far) and the sample or the exception. The
  \<^verbatim>\<open>weights='weights'\<close> of the sample are the values just assigned to that column.
\<close>

definition resample ::
  "rng \<Rightarrow> frame \<Rightarrow> frame \<Rightarrow> int \<Rightarrow> int \<Rightarrow> frame \<times> frame \<times> (py_error + frame)" where
  "resample g results1 results2 nsamples nCats =
     (case ag_cat results1 nCats of
        Inl e \<Rightarrow> (results1, results2, Inl e)
      | Inr cats1 \<Rightarrow>
          let results1 = set_column results1 ''AG_Cat'' cats1;
              counts = value_counts (map int [0..<nat nCats]) cats1
          in (case map_result (counts_at counts) cats1 of
                Inl e \<Rightarrow> (results1, results2, Inl e)
              | Inr weights1 \<Rightarrow>
                  let results1 = set_column results1 ''weights'' (count_cells weights1)
                  in (case ag_cat results2 nCats of
                        Inl e \<Rightarrow> (results1, results2, Inl e)
                      | Inr cats2 \<Rightarrow>
                          let results2 = set_column results2 ''AG_Cat'' cats2
                          in (case map_result (counts_at counts) cats2 of
                                Inl e \<Rightarrow> (results1, results2, Inl e)
                              | Inr weights2 \<Rightarrow>
                                  let results2 = set_column results2 ''weights'' (count_cells weights2)
                                  in (results1, results2,
                                      sample g nsamples (Some weights2) results2)))))"

text \<open>
  The bucket of a row, as \<^verbatim>\<open>ag_cat\<close> computes it for every row of a table, and the relation
  of a table after a call to the table before it: the columns other than the named ones
  are the same, in the same order, the rows have the same labels in the same order, and
  every cell of a column that the table had, other than the named ones, is the same.
\<close>

definition ag_bucket :: "int \<Rightarrow> row \<Rightarrow> cell" where
  "ag_bucket nCats r =
     (case (py_range 0 (100 + 100 div nCats) (100 div nCats), py_range 0 nCats 1) of
        (Inr bins, Inr labels) \<Rightarrow> cut_cell bins labels (times100 (cell_at r ''Age Grade''))
      | _ \<Rightarrow> NaN)"

definition same_but :: "string list \<Rightarrow> frame \<Rightarrow> frame \<Rightarrow> bool" where
  "same_but cs f f' =
     (filter (\<lambda>c. c \<notin> set cs) (columns f') = filter (\<lambda>c. c \<notin> set cs) (columns f)
      \<and> list_all2 (\<lambda>r r'. label r' = label r
            \<and> list_all (\<lambda>c. c \<in> set cs \<or> cell_at r' c = cell_at r c) (columns f))
           (rows f) (rows f'))"

text \<open>Small tables for the examples; the last one has a column \<^verbatim>\<open>weights\<close> already.\<close>

definition example_row :: "int \<Rightarrow> string \<Rightarrow> rat \<Rightarrow> row" where
  "example_row p cat g =
     \<lparr>label = IntV p, cells = [''Age Cat'' \<mapsto> StrV cat, ''Age Grade'' \<mapsto> FloatV g]\<rparr>"

definition example_table :: frame where
  "example_table =
     \<lparr>columns = [''Age Cat'', ''Age Grade''],
      rows = [example_row 1 ''SM25-29'' (1 / 2), example_row 2 ''SM25-29'' (11 / 20),
              example_row 3 ''SM30-34'' (7 / 10), example_row 4 ''SM25-29'' (3 / 10),
              example_row 5 ''VM35-39'' (3 / 4)]\<rparr>"

definition reference_table :: frame where
  "reference_table =
     \<lparr>columns = [''Age Cat'', ''Age Grade''],
      rows = [example_row 11 ''SW25-29'' (1 / 2), example_row 12 ''VW40-44'' (11 / 20),
              example_row 13 ''VM50-54'' (13 / 25)]\<rparr>"

definition weighted_table :: frame where
  "weighted_table = set_column example_table ''weights'' (replicate 5 (IntV 7))"

definition example_rng :: rng where
  "example_rng = (\<lambda>k. 7 * k + 3)"

section \<open>print_stats\<close>










section \<open>Properties of the converters\<close>

lemma digit_char_cases:
  "d < 10 \<Longrightarrow> is_digit (digit_char d) \<and> digit_val (digit_char d) = d \<and> \<not> is_space (digit_char d)"
proof -
  assume "d < 10"
  then have "d \<in> {0,1,2,3,4,5,6,7,8,9}" by auto
  then show ?thesis
    by (elim insertE emptyE) (simp_all add: is_digit_def digit_char_def digit_val_def is_space_def)
qed

lemma is_digit_not_special:
  "is_digit c \<Longrightarrow> \<not> is_space c \<and> c \<noteq> CHR '':'' \<and> c \<noteq> CHR ''-'' \<and> c \<noteq> CHR ''+'' \<and> c \<noteq> CHR ''%''"
  by (auto simp: is_digit_def is_space_def)

lemma str_nat_nonempty: "str_nat n \<noteq> []"
  by (subst str_nat.simps) simp

lemma str_nat_digits: "list_all is_digit (str_nat n)"
proof (induction n rule: str_nat.induct)
  case (1 n)
  show ?case
  proof (cases "n < 10")
    case True
    then show ?thesis by (subst str_nat.simps) (simp add: digit_char_cases)
  next
    case False
    with 1 have "list_all is_digit (str_nat (n div 10))" by simp
    moreover have "is_digit (digit_char (n mod 10))" by (simp add: digit_char_cases)
    ultimately show ?thesis using False by (subst str_nat.simps) simp
  qed
qed

lemma digits_val_snoc: "digits_val (s @ [c]) = 10 * digits_val s + digit_val c"
  by (simp add: digits_val_def)

lemma digits_val_str_nat: "digits_val (str_nat n) = n"
proof (induction n rule: str_nat.induct)
  case (1 n)
  show ?case
  proof (cases "n < 10")
    case True
    then show ?thesis by (subst str_nat.simps) (simp add: digits_val_def digit_char_cases)
  next
    case False
    with 1 have "digits_val (str_nat (n div 10)) = n div 10" by simp
    then show ?thesis using False
      by (subst str_nat.simps) (simp add: digits_val_snoc digit_char_cases)
  qed
qed

lemma unsigned_digits_str_nat: "unsigned_digits (str_nat n) = Some n"
  by (simp add: unsigned_digits_def str_nat_nonempty str_nat_digits digits_val_str_nat)

lemma dropWhile_id: "s \<noteq> [] \<Longrightarrow> \<not> p (hd s) \<Longrightarrow> dropWhile p s = s"
  by (cases s) simp_all

lemma strip_chars_id:
  assumes "s \<noteq> []" "\<not> p (hd s)" "\<not> p (last s)"
  shows "strip_chars p s = s"
proof -
  have "dropWhile p s = s" using assms by (simp add: dropWhile_id)
  moreover have "dropWhile p (rev s) = rev s"
    using assms by (intro dropWhile_id) (simp_all add: hd_rev)
  ultimately show ?thesis by (simp add: strip_chars_def)
qed

lemma str_nat_hd_last:
  "is_digit (hd (str_nat n)) \<and> is_digit (last (str_nat n))"
  using str_nat_digits [of n] str_nat_nonempty [of n]
  by (cases "str_nat n") (auto simp: list_all_iff)

lemma py_int_str_nat: "py_int (str_nat n) = Some (int n)"
proof -
  have "strip_chars is_space (str_nat n) = str_nat n"
    using str_nat_hd_last [of n] str_nat_nonempty [of n]
    by (intro strip_chars_id) (auto dest: is_digit_not_special)
  moreover obtain c r where cr: "str_nat n = c # r"
    using str_nat_nonempty [of n] by (cases "str_nat n") auto
  moreover have "is_digit c" using str_nat_hd_last [of n] cr by simp
  ultimately show ?thesis
    using unsigned_digits_str_nat [of n]
    by (auto simp: py_int_def dest: is_digit_not_special)
qed

lemma py_int_minus_str_nat: "py_int (CHR ''-'' # str_nat n) = Some (- int n)"
proof -
  have "strip_chars is_space (CHR ''-'' # str_nat n) = CHR ''-'' # str_nat n"
    using str_nat_hd_last [of n] str_nat_nonempty [of n]
    by (intro strip_chars_id) (auto simp: is_space_def dest: is_digit_not_special)
  then show ?thesis
    by (simp add: py_int_def unsigned_digits_str_nat)
qed

lemma py_int_zero_str_nat: "m < 10 \<Longrightarrow> py_int (CHR ''0'' # str_nat m) = Some (int m)"
proof -
  assume m: "m < 10"
  have s: "str_nat m = [digit_char m]" using m by (subst str_nat.simps) simp
  have "strip_chars is_space (CHR ''0'' # str_nat m) = CHR ''0'' # str_nat m"
  proof (rule strip_chars_id)
    show "\<not> is_space (hd (CHR ''0'' # str_nat m))" by (simp add: is_space_def)
    show "\<not> is_space (last (CHR ''0'' # str_nat m))" using digit_char_cases [OF m] by (simp add: s)
  qed simp
  moreover have "is_digit CHR ''0''" "digit_val CHR ''0'' = 0"
    by (simp_all add: is_digit_def digit_val_def)
  ultimately show ?thesis using digit_char_cases [OF m]
    by (simp add: py_int_def unsigned_digits_def s digits_val_def)
qed

lemma py_int_str_int: "py_int (str_int i) = Some i"
  by (simp add: str_int_def py_int_minus_str_nat py_int_str_nat)

lemma py_int_format_02_0f: "py_int (format_02_0f r) = Some (signed_val r)"
  by (cases r) (simp add: format_02_0f_def signed_val_def py_int_minus_str_nat py_int_zero_str_nat py_int_str_nat)

lemma split_on_no_sep: "d \<notin> set s \<Longrightarrow> split_on d s = [s]"
  by (induction s) auto

lemma split_on_two: "d \<notin> set a \<Longrightarrow> d \<notin> set b \<Longrightarrow> split_on d (a @ d # b) = [a, b]"
  by (induction a) (auto simp: split_on_no_sep)

lemma colon_free_str_nat: "CHR '':'' \<notin> set (str_nat n)"
  using str_nat_digits [of n] by (auto simp: list_all_iff dest: is_digit_not_special)

lemma colon_free_str_int: "CHR '':'' \<notin> set (str_int i)"
  by (simp add: str_int_def colon_free_str_nat)

lemma colon_free_format: "CHR '':'' \<notin> set (format_02_0f r)"
  by (cases r) (simp add: format_02_0f_def colon_free_str_nat)

lemma parse_format:
  "timeString_to_minutes (minutes_to_timeString x) =
     Inr (of_int (py_trunc x) + of_int (signed_val (py_round ((x - of_int (py_trunc x)) * 60))) / 60)"
  by (simp add: timeString_to_minutes_def minutes_to_timeString_def split_on_two
      colon_free_str_int colon_free_format py_int_str_int py_int_format_02_0f and_then_def py_get_def)















lemma signed_val_py_round_int: "signed_val (py_round (of_int k)) = k"
proof -
  have "\<lfloor>\<bar>of_int k :: rat\<bar> + 1 / 2\<rfloor> = \<bar>k\<bar>"
    by (simp add: floor_unique flip: of_int_abs)
  then show ?thesis by (auto simp: signed_val_def py_round_def)
qed

text \<open>
  Claim C8. For a duration \<open>x\<close> whose seconds need no rounding, formatting \<open>x\<close> and
  parsing the string again succeeds with a value within 1/60 minute of \<open>x\<close>.
\<close>

theorem format_then_parse_roundtrip:
  assumes "whole_seconds x"
  shows "\<exists>y. timeString_to_minutes (minutes_to_timeString x) = Inr y \<and> \<bar>y - x\<bar> \<le> 1 / 60"
proof -
  define k where "k = \<lfloor>(x - of_int (py_trunc x)) * 60\<rfloor>"
  have k: "(x - of_int (py_trunc x)) * 60 = of_int k"
    using assms unfolding whole_seconds_def Let_def k_def by (rule sym)
  have "timeString_to_minutes (minutes_to_timeString x) = Inr (of_int (py_trunc x) + of_int k / 60)"
    unfolding parse_format k signed_val_py_round_int ..
  moreover have "of_int (py_trunc x) + of_int k / 60 = x"
    using k by (simp add: field_simps)
  ultimately show ?thesis by simp
qed

theorem format_then_parse_roundtrip_witness:
  "whole_seconds (125 / 2)
   \<and> (\<exists>y. timeString_to_minutes (minutes_to_timeString (125 / 2)) = Inr y \<and> \<bar>y - 125 / 2\<bar> \<le> 1 / 60)"
proof -
  have h: "whole_seconds (125 / 2)" by code_simp
  show ?thesis using h format_then_parse_roundtrip [OF h] by simp
qed

text \<open>
  Claim C4. A string of three integer components \<^verbatim>\<open>H:MM:SS\<close> is converted to
  \<open>60 * H + MM + SS / 60\<close>; a string of two components, on which the three-component
  formula raises, is converted by the fallback to \<open>MM + SS / 60\<close>; in particular
  \<^verbatim>\<open>1:02:30\<close> gives 62.5 and \<^verbatim>\<open>25:30\<close> gives 25.5.
\<close>

theorem timeString_to_minutes_formulas:
  "(split_on CHR '':'' s = [h, m, c] \<and> py_int h = Some H \<and> py_int m = Some M \<and> py_int c = Some S
      \<longrightarrow> timeString_to_minutes s = Inr (of_int (60 * H + M) + of_int S / 60))
   \<and> (split_on CHR '':'' s = [m, c] \<and> py_int m = Some M \<and> py_int c = Some S
      \<longrightarrow> timeString_to_minutes s = Inr (of_int M + of_int S / 60))
   \<and> timeString_to_minutes ''1:02:30'' = Inr (125 / 2)
   \<and> timeString_to_minutes ''25:30'' = Inr (51 / 2)"
proof (intro conjI impI)
  assume "split_on CHR '':'' s = [h, m, c] \<and> py_int h = Some H \<and> py_int m = Some M \<and> py_int c = Some S"
  then show "timeString_to_minutes s = Inr (of_int (60 * H + M) + of_int S / 60)"
    by (simp add: timeString_to_minutes_def and_then_def py_get_def)
next
  assume "split_on CHR '':'' s = [m, c] \<and> py_int m = Some M \<and> py_int c = Some S"
  then show "timeString_to_minutes s = Inr (of_int M + of_int S / 60)"
    by (simp add: timeString_to_minutes_def and_then_def py_get_def)
next
  show "timeString_to_minutes ''1:02:30'' = Inr (125 / 2)" by code_simp
next
  show "timeString_to_minutes ''25:30'' = Inr (51 / 2)" by code_simp
qed

theorem timeString_to_minutes_formulas_witness:
  "split_on CHR '':'' ''1:02:30'' = [''1'', ''02'', ''30'']
   \<and> py_int ''1'' = Some 1 \<and> py_int ''02'' = Some 2 \<and> py_int ''30'' = Some 30
   \<and> timeString_to_minutes ''1:02:30'' = Inr (of_int (60 * 1 + 2) + of_int 30 / 60)
   \<and> split_on CHR '':'' ''25:30'' = [''25'', ''30'']
   \<and> py_int ''25'' = Some 25
   \<and> timeString_to_minutes ''25:30'' = Inr (of_int 25 + of_int 30 / 60)"
proof -
  have a: "split_on CHR '':'' ''1:02:30'' = [''1'', ''02'', ''30'']" by code_simp
  have b: "py_int ''1'' = Some 1" "py_int ''02'' = Some 2" "py_int ''30'' = Some 30"
    "py_int ''25'' = Some 25" by code_simp+
  have c: "split_on CHR '':'' ''25:30'' = [''25'', ''30'']" by code_simp
  have "timeString_to_minutes ''1:02:30'' = Inr (of_int (60 * 1 + 2) + of_int 30 / 60)"
    using a b timeString_to_minutes_formulas
      [of "''1:02:30''" "''1''" "''02''" "''30''" 1 2 30] by blast
  moreover have "timeString_to_minutes ''25:30'' = Inr (of_int 25 + of_int 30 / 60)"
    using c b timeString_to_minutes_formulas
      [of "''25:30''" _ "''25''" "''30''" _ 25 30] by blast
  ultimately show ?thesis using a b c by blast
qed

text \<open>
  Claim C10. For a nonnegative \<open>x\<close> whose fractional minute is at least 59.5 seconds
  (it rounds to 60), the seconds field is printed as \<^verbatim>\<open>60\<close> after the truncated minutes,
  with no carry: 24.999 is printed as \<^verbatim>\<open>24:60\<close>.
\<close>

theorem minutes_to_timeString_sixty_seconds:
  "(0 \<le> x \<and> 119 / 2 \<le> (x - of_int \<lfloor>x\<rfloor>) * 60
      \<longrightarrow> minutes_to_timeString x = str_int \<lfloor>x\<rfloor> @ '':60'')
   \<and> minutes_to_timeString (24999 / 1000) = ''24:60''"
proof (intro conjI impI)
  assume a: "0 \<le> x \<and> 119 / 2 \<le> (x - of_int \<lfloor>x\<rfloor>) * 60"
  define v where "v = (x - of_int \<lfloor>x\<rfloor>) * 60"
  have t: "py_trunc x = \<lfloor>x\<rfloor>" using a by (simp add: py_trunc_def)
  have "x - of_int \<lfloor>x\<rfloor> < 1" by linarith
  then have v: "119 / 2 \<le> v" "v < 60" using a by (simp_all add: v_def)
  then have "\<lfloor>\<bar>v\<bar> + 1 / 2\<rfloor> = 60" by (intro floor_unique) simp_all
  then have "py_round v = (False, 60)" using v by (simp add: py_round_def)
  moreover have "str_nat 60 = ''60''" by code_simp
  ultimately show "minutes_to_timeString x = str_int \<lfloor>x\<rfloor> @ '':60''"
    by (simp add: minutes_to_timeString_def t v_def format_02_0f_def)
next
  show "minutes_to_timeString (24999 / 1000) = ''24:60''" by code_simp
qed

theorem minutes_to_timeString_sixty_seconds_witness:
  "(0::rat) \<le> 24999 / 1000 \<and> (119 / 2 :: rat) \<le> (24999 / 1000 - of_int \<lfloor>24999 / 1000 :: rat\<rfloor>) * 60
   \<and> minutes_to_timeString (24999 / 1000) = str_int \<lfloor>24999 / 1000 :: rat\<rfloor> @ '':60''"
proof -
  have f: "\<lfloor>24999 / 1000 :: rat\<rfloor> = 24" by code_simp
  have h: "(0::rat) \<le> 24999 / 1000 \<and> (119 / 2 :: rat) \<le> (24999 / 1000 - of_int \<lfloor>24999 / 1000 :: rat\<rfloor>) * 60"
    unfolding f by simp
  show ?thesis
    using h minutes_to_timeString_sixty_seconds [of "24999 / 1000"] by blast
qed
section \<open>Properties of importResults\<close>

lemma and_then_Inr: "and_then r f = Inr y \<longleftrightarrow> (\<exists>v. r = Inr v \<and> f v = Inr y)"
  by (cases r) (simp_all add: and_then_def)

lemma map_result_Inr:
  "map_result f xs = Inr ys \<Longrightarrow> list_all2 (\<lambda>x y. f x = Inr y) xs ys"
  by (induction xs arbitrary: ys) (auto simp: and_then_Inr)

lemma to_float_is_float: "to_float v = Inr w \<Longrightarrow> is_float w"
  by (auto simp: to_float_def is_float_def split: cell.splits option.splits)

lemma to_int_is_int: "to_int v = Inr w \<Longrightarrow> is_int w"
  by (auto simp: to_int_def is_int_def split: cell.splits option.splits)

lemma cell_at_set_cell: "cell_at (set_cell n r v) c = (if c = n then v else cell_at r c)"
  by (simp add: cell_at_def set_cell_def)

lemma astype_row_Inr:
  "astype_row conv ns r = Inr r' \<Longrightarrow>
     label r' = label r
     \<and> (\<forall>c. c \<notin> set ns \<longrightarrow> cell_at r' c = cell_at r c)
     \<and> (\<forall>n\<in>set ns. \<exists>v. conv v = Inr (cell_at r' n))"
proof (induction ns arbitrary: r)
  case Nil
  then show ?case by simp
next
  case (Cons n ns)
  from Cons.prems obtain v where v: "conv (cell_at r n) = Inr v"
    and rest: "astype_row conv ns (set_cell n r v) = Inr r'"
    by (auto simp: and_then_Inr)
  note ih = Cons.IH [OF rest]
  have "label r' = label r" using ih by (simp add: set_cell_def)
  moreover have "\<forall>c. c \<notin> set (n # ns) \<longrightarrow> cell_at r' c = cell_at r c"
    using ih by (simp add: cell_at_set_cell)
  moreover have "\<forall>m\<in>set (n # ns). \<exists>v. conv v = Inr (cell_at r' m)"
  proof
    fix m assume m: "m \<in> set (n # ns)"
    show "\<exists>v. conv v = Inr (cell_at r' m)"
    proof (cases "m \<in> set ns")
      case True
      then show ?thesis using ih by blast
    next
      case False
      then have "m = n" using m by simp
      moreover have "cell_at r' n = v" using ih False \<open>m = n\<close> by (simp add: cell_at_set_cell)
      ultimately show ?thesis using v by blast
    qed
  qed
  ultimately show ?case by blast
qed

lemma astype_Inr:
  assumes "astype conv names f = Inr f'"
  shows "columns f' = columns f
     \<and> list_all2 (\<lambda>r r'. astype_row conv names r = Inr r') (rows f) (rows f')"
proof -
  from assms obtain rs where rs: "map_result (astype_row conv names) (rows f) = Inr rs"
    and f': "f' = f\<lparr>rows := rs\<rparr>"
    by (auto simp: astype_def and_then_Inr split: if_splits)
  show ?thesis using map_result_Inr [OF rs] by (simp add: f')
qed

lemma list_all2_right: "list_all2 P xs ys \<Longrightarrow> y \<in> set ys \<Longrightarrow> \<exists>x\<in>set xs. P x y"
  by (induction rule: list_all2_induct) auto

lemma astype_rows:
  assumes "astype conv names f = Inr f'" and "r' \<in> set (rows f')"
  shows "\<exists>r\<in>set (rows f). astype_row conv names r = Inr r'"
  using astype_Inr [OF assms(1)] assms(2) list_all2_right by fast

lemma astype_length:
  "astype conv names f = Inr f' \<Longrightarrow> length (rows f') = length (rows f)"
  by (auto dest!: astype_Inr list_all2_lengthD)

lemma importResults_Inr:
  assumes "importResults fs infile h f rm rep = (out, Inr tbl)"
  shows "\<exists>lines raw fl.
           fs infile = Some lines \<and> parsed_results lines = Inr raw
           \<and> astype to_float [''Time'', ''Age Grade''] raw = Inr fl
           \<and> (if rm then astype to_int [''Gender Pos'', ''Total Runs'']
                            (filter_rows (\<lambda>r. \<not> is_unknown r) fl)
               else Inr fl) = Inr tbl
           \<and> (rep \<longrightarrow> import_report infile (length (rows raw))
                          (int (length (rows raw)) - int (length (filter is_unknown (rows raw))))
                          (length (filter is_unknown (rows raw)))
                          (length (filter is_male (rows raw))) = (out, None))"
  using assms
  unfolding importResults_def parsed_results_def Let_def
  by (auto simp: and_then_Inr split: option.splits sum.splits if_splits prod.splits)

lemma import_report_unknowns:
  "import_report infile n v u m = (out, None) \<Longrightarrow> \<exists>p. NumberOfUnknowns u p \<in> set out"
  by (auto simp: import_report_def Let_def split: if_splits)

text \<open>
  Claim C5. In every table that \<^verbatim>\<open>importResults\<close> returns, the cells of Time and Age Grade
  are floats. With \<^verbatim>\<open>removeUnknowns\<close>, no row has the runner \<^verbatim>\<open>Unknown\<close> and the cells of
  Gender Pos and Total Runs are integers. With \<^verbatim>\<open>report\<close>, the number of unknowns that is
  printed is the number of \<^verbatim>\<open>Unknown\<close> rows of the table as read, before the filtering:
  with \<^verbatim>\<open>removeUnknowns\<close> the returned table has that many rows less.
\<close>

theorem importResults_invariants:
  assumes "importResults fs infile h f removeUnknowns report = (out, Inr tbl)"
  shows "(\<forall>r\<in>set (rows tbl). is_float (cell_at r ''Time'') \<and> is_float (cell_at r ''Age Grade''))
     \<and> (removeUnknowns \<longrightarrow>
          (\<forall>r\<in>set (rows tbl). cell_at r ''Runner'' \<noteq> StrV ''Unknown''
              \<and> is_int (cell_at r ''Gender Pos'') \<and> is_int (cell_at r ''Total Runs'')))
     \<and> (report \<longrightarrow>
          (\<exists>lines raw p. fs infile = Some lines \<and> parsed_results lines = Inr raw
              \<and> NumberOfUnknowns (length (filter is_unknown (rows raw))) p \<in> set out
              \<and> (removeUnknowns \<longrightarrow>
                    length (rows tbl) + length (filter is_unknown (rows raw)) = length (rows raw))))"
proof -
  from importResults_Inr [OF assms] obtain lines raw fl where
    lines: "fs infile = Some lines" and raw: "parsed_results lines = Inr raw"
    and fl: "astype to_float [''Time'', ''Age Grade''] raw = Inr fl"
    and tbl: "(if removeUnknowns then astype to_int [''Gender Pos'', ''Total Runs'']
                            (filter_rows (\<lambda>r. \<not> is_unknown r) fl)
               else Inr fl) = Inr tbl"
    and rep: "report \<longrightarrow> import_report infile (length (rows raw))
                          (int (length (rows raw)) - int (length (filter is_unknown (rows raw))))
                          (length (filter is_unknown (rows raw)))
                          (length (filter is_male (rows raw))) = (out, None)"
    by blast
  have fl_rows: "is_float (cell_at r ''Time'') \<and> is_float (cell_at r ''Age Grade'')
      \<and> (\<exists>r0\<in>set (rows raw). cell_at r ''Runner'' = cell_at r0 ''Runner'')"
    if "r \<in> set (rows fl)" for r
  proof -
    from astype_rows [OF fl that] obtain r0 where r0: "r0 \<in> set (rows raw)"
      and c: "astype_row to_float [''Time'', ''Age Grade''] r0 = Inr r" by blast
    from astype_row_Inr [OF c] show ?thesis
      using r0 by (auto dest: to_float_is_float)
  qed
  have unknown_fl: "map is_unknown (rows fl) = map is_unknown (rows raw)"
  proof -
    have "list_all2 (\<lambda>r r'. astype_row to_float [''Time'', ''Age Grade''] r = Inr r') (rows raw) (rows fl)"
      using astype_Inr [OF fl] by simp
    then have "list_all2 (\<lambda>r r'. is_unknown r' = is_unknown r) (rows raw) (rows fl)"
    proof (rule list_all2_mono)
      fix r r' assume "astype_row to_float [''Time'', ''Age Grade''] r = Inr r'"
      from astype_row_Inr [OF this] show "is_unknown r' = is_unknown r"
        by (simp add: is_unknown_def)
    qed
    then show ?thesis
      by (induction rule: list_all2_induct) auto
  qed
  have len_filter: "length (filter (\<lambda>r. \<not> is_unknown r) (rows fl)) + length (filter is_unknown (rows raw))
      = length (rows raw)"
  proof -
    have "length (filter (\<lambda>r. \<not> is_unknown r) (rows fl)) = length (filter Not (map is_unknown (rows fl)))"
      by (simp add: filter_map comp_def)
    moreover have "length (filter is_unknown (rows raw)) = length (filter id (map is_unknown (rows raw)))"
      by (simp add: filter_map comp_def)
    moreover have "length (filter Not bs) + length (filter id bs) = length bs" for bs :: "bool list"
      by (induction bs) auto
    ultimately show ?thesis using unknown_fl by (metis length_map)
  qed
  have c1: "\<forall>r\<in>set (rows tbl). is_float (cell_at r ''Time'') \<and> is_float (cell_at r ''Age Grade'')"
  proof (cases removeUnknowns)
    case False
    then show ?thesis using tbl fl_rows by auto
  next
    case True
    show ?thesis
    proof
      fix r assume r: "r \<in> set (rows tbl)"
      from True tbl have a: "astype to_int [''Gender Pos'', ''Total Runs'']
          (filter_rows (\<lambda>r. \<not> is_unknown r) fl) = Inr tbl" by simp
      from astype_rows [OF a r] obtain r1 where r1: "r1 \<in> set (rows fl)"
        and c: "astype_row to_int [''Gender Pos'', ''Total Runs''] r1 = Inr r"
        by (auto simp: filter_rows_def)
      from astype_row_Inr [OF c] fl_rows [OF r1]
      show "is_float (cell_at r ''Time'') \<and> is_float (cell_at r ''Age Grade'')" by simp
    qed
  qed
  have c2: "\<forall>r\<in>set (rows tbl). cell_at r ''Runner'' \<noteq> StrV ''Unknown''
              \<and> is_int (cell_at r ''Gender Pos'') \<and> is_int (cell_at r ''Total Runs'')"
    and c3: "length (rows tbl) + length (filter is_unknown (rows raw)) = length (rows raw)"
    if rm: removeUnknowns
  proof -
    from rm tbl have a: "astype to_int [''Gender Pos'', ''Total Runs'']
        (filter_rows (\<lambda>r. \<not> is_unknown r) fl) = Inr tbl" by simp
    show "\<forall>r\<in>set (rows tbl). cell_at r ''Runner'' \<noteq> StrV ''Unknown''
              \<and> is_int (cell_at r ''Gender Pos'') \<and> is_int (cell_at r ''Total Runs'')"
    proof
      fix r assume r: "r \<in> set (rows tbl)"
      from astype_rows [OF a r] obtain r1 where r1: "r1 \<in> set (rows fl)" "\<not> is_unknown r1"
        and c: "astype_row to_int [''Gender Pos'', ''Total Runs''] r1 = Inr r"
        by (auto simp: filter_rows_def)
      from astype_row_Inr [OF c] r1
      show "cell_at r ''Runner'' \<noteq> StrV ''Unknown''
              \<and> is_int (cell_at r ''Gender Pos'') \<and> is_int (cell_at r ''Total Runs'')"
        by (auto simp: is_unknown_def dest: to_int_is_int)
    qed
    from astype_length [OF a] len_filter
    show "length (rows tbl) + length (filter is_unknown (rows raw)) = length (rows raw)"
      by (simp add: filter_rows_def)
  qed
  have c4: "\<exists>p. NumberOfUnknowns (length (filter is_unknown (rows raw))) p \<in> set out" if report
    using rep that import_report_unknowns by blast
  show ?thesis using c1 c2 c3 c4 lines raw by blast
qed

lemma example_import_returns:
  "\<not> isl (snd (importResults [''results.txt'' \<mapsto> example_file] ''results.txt'' 13 36 True True))"
  by code_simp

theorem importResults_invariants_witness:
  "\<exists>out tbl.
     importResults [''results.txt'' \<mapsto> example_file] ''results.txt'' 13 36 True True = (out, Inr tbl)
     \<and> length (rows tbl) = 1
     \<and> (\<forall>r\<in>set (rows tbl). is_float (cell_at r ''Time'') \<and> is_float (cell_at r ''Age Grade'')
           \<and> cell_at r ''Runner'' \<noteq> StrV ''Unknown''
           \<and> is_int (cell_at r ''Gender Pos'') \<and> is_int (cell_at r ''Total Runs''))
     \<and> (\<exists>p. NumberOfUnknowns 1 p \<in> set out)"
proof -
  define res where "res = importResults [''results.txt'' \<mapsto> example_file] ''results.txt'' 13 36 True True"
  have "\<not> isl (snd res)" unfolding res_def by (rule example_import_returns)
  then have eq: "importResults [''results.txt'' \<mapsto> example_file] ''results.txt'' 13 36 True True
      = (fst res, Inr (projr (snd res)))"
    by (simp add: res_def [symmetric])
  have len: "length (rows (projr (snd res))) = 1" unfolding res_def by code_simp
  have unk: "NumberOfUnknowns 1 50 \<in> set (fst res)" unfolding res_def by code_simp
  from importResults_invariants [OF eq] len unk show ?thesis
    using eq by blast
qed

lemma importResults_skip_arguments_unused:
  "importResults fs infile h f removeUnknowns report = importResults fs infile 13 36 removeUnknowns report"
  by (simp add: importResults_def)

text \<open>
  Claim C1, on the code. The header and footer parameters do not reach \<^verbatim>\<open>read_csv\<close>, which
  is called with the literals 13 and 36 (lemma \<open>importResults_skip_arguments_unused\<close>).
  A file of 50 data rows imported with both parameters 0 gives a table of one row: the
  first 13 and the last 36 lines are discarded all the same.
\<close>

theorem importResults_discards_13_and_36_lines:
  "length rows_only_file = 50
   \<and> (case snd (importResults [''results.txt'' \<mapsto> rows_only_file] ''results.txt'' 0 0 True False) of
        Inr tbl \<Rightarrow> length (rows tbl) = 1
      | Inl e \<Rightarrow> False)"
  by code_simp
section \<open>Properties of the sampling and of resample_AgeCat\<close>

lemma pick_positive: "t < sum_list ws \<Longrightarrow> pick ws t < length ws \<and> 0 < ws ! pick ws t"
proof (induction ws arbitrary: t)
  case Nil
  then show ?case by simp
next
  case (Cons w ws)
  show ?case
  proof (cases "t < w")
    case True
    then show ?thesis by simp
  next
    case False
    with Cons.prems have "t - w < sum_list ws" by simp
    from Cons.IH [OF this] False show ?thesis by simp
  qed
qed

lemma draw_Suc:
  "draw g (Suc n) ws =
     (if sum_list ws = 0 then Inl ValueError
      else and_then (draw (advance 1 g) n (ws[pick ws (g 0 mod sum_list ws) := 0]))
             (\<lambda>is. Inr (pick ws (g 0 mod sum_list ws) # is)))"
  by (simp add: draw.simps(2) Let_def del: sum_list_eq_0_iff)

lemma draw_Inr:
  "draw g n ws = Inr is \<Longrightarrow>
     length is = n \<and> distinct is \<and> (\<forall>i\<in>set is. i < length ws \<and> 0 < ws ! i)"
proof (induction n arbitrary: g ws "is")
  case 0
  then show ?case by simp
next
  case (Suc n)
  define i where "i = pick ws (g 0 mod sum_list ws)"
  from Suc.prems have pos: "sum_list ws \<noteq> 0"
    unfolding draw_Suc by (cases "sum_list ws = 0") simp_all
  with Suc.prems have "and_then (draw (advance 1 g) n (ws[i := 0])) (\<lambda>is. Inr (i # is)) = Inr is"
    unfolding draw_Suc i_def by (simp del: sum_list_eq_0_iff)
  then obtain js where js: "draw (advance 1 g) n (ws[i := 0]) = Inr js"
    and "is": "is = i # js"
    unfolding and_then_Inr by auto
  have "0 < sum_list ws" using pos by (rule neq0_conv [THEN iffD1])
  then have "g 0 mod sum_list ws < sum_list ws" by (rule mod_less_divisor)
  then have i: "i < length ws \<and> 0 < ws ! i"
    unfolding i_def by (rule pick_positive)
  from Suc.IH [OF js] have ih: "length js = n" "distinct js"
    "\<forall>j\<in>set js. j < length ws \<and> 0 < ws[i := 0] ! j" by simp_all
  have "i \<notin> set js"
  proof
    assume "i \<in> set js"
    with ih(3) i show False by auto
  qed
  moreover have "\<forall>j\<in>set js. j < length ws \<and> 0 < ws ! j"
  proof
    fix j assume "j \<in> set js"
    with ih(3) have "j < length ws" "0 < ws[i := 0] ! j" by auto
    then show "j < length ws \<and> 0 < ws ! j" by (cases "j = i") auto
  qed
  ultimately show ?case using ih i "is" by simp
qed

lemma positive_after_draw:
  fixes ws :: "nat list"
  shows "i < length ws \<Longrightarrow> 0 < ws ! i \<Longrightarrow>
     Suc (length (filter (\<lambda>w. 0 < w) (ws[i := 0]))) = length (filter (\<lambda>w. 0 < w) ws)"
proof (induction ws arbitrary: i)
  case Nil
  then show ?case by simp
next
  case (Cons w ws)
  then show ?case by (cases i) auto
qed

lemma sum_list_positive: "filter (\<lambda>w. 0 < w) ws \<noteq> [] \<Longrightarrow> 0 < sum_list (ws :: nat list)"
  by (induction ws) (auto split: if_splits)

lemma draw_succeeds:
  "n \<le> length (filter (\<lambda>w. 0 < w) ws) \<Longrightarrow> \<exists>is. draw g n ws = Inr is"
proof (induction n arbitrary: g ws)
  case 0
  then show ?case by simp
next
  case (Suc n)
  define i where "i = pick ws (g 0 mod sum_list ws)"
  from Suc.prems have "filter (\<lambda>w. 0 < w) ws \<noteq> []" by auto
  then have pos: "0 < sum_list ws" by (rule sum_list_positive)
  then have "g 0 mod sum_list ws < sum_list ws" by (rule mod_less_divisor)
  then have i: "i < length ws \<and> 0 < ws ! i"
    unfolding i_def by (rule pick_positive)
  with positive_after_draw [of i ws] Suc.prems
  have "n \<le> length (filter (\<lambda>w. 0 < w) (ws[i := 0]))" by simp
  from Suc.IH [OF this] obtain js where "draw (advance 1 g) n (ws[i := 0]) = Inr js" by blast
  then show ?case using pos unfolding draw_Suc i_def by (simp add: and_then_def del: sum_list_eq_0_iff)
qed

lemma sample_uniform_Inr:
  assumes "sample g n None f = Inr s"
  shows "0 \<le> n \<and> nat n \<le> length (rows f) \<and> length (rows s) = nat n
     \<and> columns s = columns f \<and> set (rows s) \<subseteq> set (rows f)"
proof -
  from assms have n: "0 \<le> n" "nat n \<le> length (rows f)" by (auto simp: sample_def split: if_splits)
  with assms obtain "is" where d: "draw g (nat n) (replicate (length (rows f)) 1) = Inr is"
    and s: "s = take_rows f is"
    by (auto simp: sample_def and_then_Inr split: if_splits)
  from draw_Inr [OF d] have "length is = nat n" "\<forall>i\<in>set is. i < length (rows f)" by auto
  then show ?thesis using n by (auto simp: s take_rows_def)
qed

lemma sample_uniform_succeeds:
  assumes "0 \<le> n" "nat n \<le> length (rows f)"
  shows "\<exists>s. sample g n None f = Inr s"
proof -
  have "filter (\<lambda>w. 0 < w) (replicate (length (rows f)) (1::nat)) = replicate (length (rows f)) 1"
    by simp
  then have "nat n \<le> length (filter (\<lambda>w. 0 < w) (replicate (length (rows f)) (1::nat)))"
    using assms by simp
  from draw_succeeds [OF this] obtain "is" where "draw g (nat n) (replicate (length (rows f)) 1) = Inr is"
    by blast
  then show ?thesis using assms by (simp add: sample_def and_then_def)
qed

lemma rows_frame_append: "rows (frame_append a b) = rows a @ rows b"
  by (simp add: frame_append_def)

lemma category_step:
  "(\<exists>s. and_then (column t ''Age Cat'') (\<lambda>_. sample g n None (filter_rows (has_cat cat) t)) = Inr s
        \<and> contributes t n cat (rows s))
   \<or> ((\<exists>e. and_then (column t ''Age Cat'') (\<lambda>_. sample g n None (filter_rows (has_cat cat) t)) = Inl e)
        \<and> contributes t n cat [])"
proof (cases "and_then (column t ''Age Cat'') (\<lambda>_. sample g n None (filter_rows (has_cat cat) t))")
  case (Inr s)
  then have "sample g n None (filter_rows (has_cat cat) t) = Inr s"
    by (auto simp: and_then_Inr)
  from sample_uniform_Inr [OF this]
  have "0 \<le> n" "nat n \<le> length (filter (has_cat cat) (rows t))" "length (rows s) = nat n"
    "set (rows s) \<subseteq> set (filter (has_cat cat) (rows t))"
    by (simp_all add: filter_rows_def)
  then have "contributes t n cat (rows s)"
    by (auto simp: contributes_def)
  then show ?thesis using Inr by simp
next
  case (Inl e)
  have "\<not> (''Age Cat'' \<in> set (columns t) \<and> 0 \<le> n \<and> n \<le> int (length (filter (has_cat cat) (rows t))))"
  proof
    assume a: "''Age Cat'' \<in> set (columns t) \<and> 0 \<le> n \<and> n \<le> int (length (filter (has_cat cat) (rows t)))"
    then have "nat n \<le> length (rows (filter_rows (has_cat cat) t))"
      unfolding filter_rows_def by simp linarith
    with a sample_uniform_succeeds [of n "filter_rows (has_cat cat) t" g]
    obtain s where "sample g n None (filter_rows (has_cat cat) t) = Inr s" by blast
    with a Inl show False by (simp add: and_then_def column_def)
  qed
  then have "contributes t n cat []" unfolding contributes_def by auto
  then show ?thesis using Inl by simp
qed

lemma resample_loop_rows:
  "\<exists>chunks. rows (resample_loop g t n cats acc) = rows acc @ concat chunks
      \<and> list_all2 (contributes t n) cats chunks"
proof (induction cats arbitrary: g acc)
  case Nil
  then show ?case by simp
next
  case (Cons cat cats)
  from category_step [of t g n cat] show ?case
  proof (elim disjE exE conjE)
    fix s
    assume s: "and_then (column t ''Age Cat'') (\<lambda>_. sample g n None (filter_rows (has_cat cat) t)) = Inr s"
      and c: "contributes t n cat (rows s)"
    from Cons.IH [of "advance (nat n) g" "frame_append acc s"] obtain chunks where
      "rows (resample_loop (advance (nat n) g) t n cats (frame_append acc s))
         = rows (frame_append acc s) @ concat chunks"
      "list_all2 (contributes t n) cats chunks" by blast
    then have "rows (resample_loop g t n (cat # cats) acc) = rows acc @ concat (rows s # chunks)
        \<and> list_all2 (contributes t n) (cat # cats) (rows s # chunks)"
      using s c by (simp add: rows_frame_append)
    then show ?thesis by blast
  next
    fix e
    assume e: "and_then (column t ''Age Cat'') (\<lambda>_. sample g n None (filter_rows (has_cat cat) t)) = Inl e"
      and c: "contributes t n cat []"
    from Cons.IH [of g acc] obtain chunks where
      "rows (resample_loop g t n cats acc) = rows acc @ concat chunks"
      "list_all2 (contributes t n) cats chunks" by blast
    then have "rows (resample_loop g t n (cat # cats) acc) = rows acc @ concat ([] # chunks)
        \<and> list_all2 (contributes t n) (cat # cats) ([] # chunks)"
      using e c by simp
    then show ?thesis by blast
  qed
qed

lemma chunks_length:
  "list_all2 (contributes t n) cats chunks \<Longrightarrow> length (concat chunks) \<le> nat n * length cats"
proof (induction rule: list_all2_induct)
  case Nil
  then show ?case by simp
next
  case (Cons cat cats ch chunks)
  from Cons.hyps(1) have "ch = [] \<or> int (length ch) = n" unfolding contributes_def by blast
  then have "length ch \<le> nat n" by auto
  with Cons.IH show ?case by simp
qed

lemma chunks_cats:
  "list_all2 (contributes t n) cats chunks \<Longrightarrow> r \<in> set (concat chunks)
     \<Longrightarrow> \<exists>cat\<in>set cats. has_cat cat r"
proof (induction rule: list_all2_induct)
  case Nil
  then show ?case by simp
next
  case (Cons cat cats ch chunks)
  from Cons.hyps(1) have "\<forall>r\<in>set ch. has_cat cat r" unfolding contributes_def by blast
  with Cons show ?case by auto
qed

text \<open>
  Claim C6, as the code has it. The rows returned by \<^verbatim>\<open>resample_AgeCat\<close> are the
  contributions of the 14 select categories, in the order of \<open>selectCats\<close>; a
  contribution holds rows of its category only, and none when the table has fewer than
  \<open>n\<close> rows of the category, without any error. So every returned row is of a select
  category, and for \<open>n \<ge> 0\<close> there are at most \<open>n * 14\<close> rows; a negative \<open>n\<close> gives
  no row at all.
\<close>

theorem resample_AgeCat_by_category:
  "(\<exists>chunks. rows (snd (resample_AgeCat g results n)) = concat chunks
       \<and> list_all2 (contributes results n) selectCats chunks)
   \<and> (0 \<le> n \<longrightarrow> int (length (rows (snd (resample_AgeCat g results n)))) \<le> n * 14)
   \<and> (n < 0 \<longrightarrow> rows (snd (resample_AgeCat g results n)) = [])
   \<and> (\<forall>r\<in>set (rows (snd (resample_AgeCat g results n))). \<exists>cat\<in>set selectCats. has_cat cat r)"
proof -
  from resample_loop_rows [of g results n selectCats "\<lparr>columns = [], rows = []\<rparr>"]
  obtain chunks where rows: "rows (snd (resample_AgeCat g results n)) = concat chunks"
    and chunks: "list_all2 (contributes results n) selectCats chunks"
    unfolding resample_AgeCat_def by auto
  have len: "length selectCats = 14" by (simp add: selectCats_def)
  from chunks_length [OF chunks] have le: "length (concat chunks) \<le> nat n * 14" by (simp add: len)
  have "0 \<le> n \<longrightarrow> int (length (concat chunks)) \<le> n * 14"
  proof
    assume "0 \<le> n"
    then have "int (nat n * 14) = n * 14" by simp
    with le show "int (length (concat chunks)) \<le> n * 14" by linarith
  qed
  moreover have "n < 0 \<longrightarrow> concat chunks = []" using le by auto
  moreover have "\<forall>r\<in>set (concat chunks). \<exists>cat\<in>set selectCats. has_cat cat r"
    using chunks_cats [OF chunks] by blast
  ultimately show ?thesis unfolding rows using chunks by blast
qed


theorem resample_AgeCat_by_category_witness:
  "(0::int) \<le> 2
   \<and> length (rows (snd (resample_AgeCat example_rng example_table 2))) = 2
   \<and> int (length (rows (snd (resample_AgeCat example_rng example_table 2)))) \<le> 2 * 14
   \<and> (\<exists>chunks. rows (snd (resample_AgeCat example_rng example_table 2)) = concat chunks
         \<and> list_all2 (contributes example_table 2) selectCats chunks)
   \<and> list_all (\<lambda>r. list_ex (\<lambda>cat. has_cat cat r) selectCats)
        (rows (snd (resample_AgeCat example_rng example_table 2)))
   \<and> (- 1 :: int) < 0
   \<and> rows (snd (resample_AgeCat example_rng example_table (- 1))) = []"
proof -
  have len: "length (rows (snd (resample_AgeCat example_rng example_table 2))) = 2" by code_simp
  from resample_AgeCat_by_category [of example_rng example_table 2] len
    resample_AgeCat_by_category [of example_rng example_table "- 1"]
  show ?thesis
    by (simp add: list_all_iff list_ex_iff)
qed

theorem resample_AgeCat_negative_counterexample:
  "\<not> int (length (rows (snd (resample_AgeCat example_rng example_table (- 1))))) \<le> (- 1) * 14"
  by code_simp
section \<open>Properties of resample\<close>


lemma ag_cat_Inr:
  assumes "ag_cat f k = Inr cats"
  shows "cats = map (ag_bucket k) (rows f)"
proof -
  from assms obtain grades bins labels where
    g: "column f ''Age Grade'' = Inr grades" and k: "k \<noteq> 0"
    and b: "py_range 0 (100 + 100 div k) (100 div k) = Inr bins"
    and l: "py_range 0 k 1 = Inr labels"
    and c: "pd_cut (map times100 grades) bins labels = Inr cats"
    by (auto simp: ag_cat_def and_then_Inr split: if_splits)
  from g have grades: "grades = map (\<lambda>r. cell_at r ''Age Grade'') (rows f)"
    by (auto simp: column_def split: if_splits)
  from c have "cats = map (cut_cell bins labels) (map times100 grades)"
    by (auto simp: pd_cut_def split: if_splits)
  then show ?thesis
    unfolding grades ag_bucket_def b l by (simp add: comp_def)
qed




lemma rows_set_column:
  "length vs = length (rows f) \<Longrightarrow>
     length (rows (set_column f c vs)) = length (rows f)
     \<and> (\<forall>i<length (rows f). rows (set_column f c vs) ! i = set_cell c (rows f ! i) (vs ! i))"
  by (simp add: set_column_def)

lemma same_but_refl: "same_but cs f f"
proof -
  have "list_all2 (\<lambda>r r'. label r' = label r
            \<and> list_all (\<lambda>c. c \<in> set cs \<or> cell_at r' c = cell_at r c) (columns f)) rs rs" for rs
    by (induction rs) (simp_all add: list_all_iff)
  then show ?thesis by (simp add: same_but_def)
qed

lemma same_but_set_column:
  assumes "c \<in> set cs" "length vs = length (rows f)"
  shows "same_but cs f (set_column f c vs)"
proof -
  have "filter (\<lambda>c. c \<notin> set cs) (columns (set_column f c vs)) = filter (\<lambda>c. c \<notin> set cs) (columns f)"
    using assms(1) by (simp add: set_column_def)
  moreover have "list_all2 (\<lambda>r r'. label r' = label r
            \<and> list_all (\<lambda>c. c \<in> set cs \<or> cell_at r' c = cell_at r c) (columns f))
           (rows f) (rows (set_column f c vs))"
    unfolding list_all2_conv_all_nth
    using rows_set_column [OF assms(2), of c] assms(1)
    by (auto simp: list_all_iff cell_at_set_cell) (simp add: set_cell_def)
  ultimately show ?thesis by (simp add: same_but_def)
qed

lemma same_but_trans_set_column:
  assumes "same_but cs f f'" "c \<in> set cs" "length vs = length (rows f')"
  shows "same_but cs f (set_column f' c vs)"
proof -
  have "filter (\<lambda>c. c \<notin> set cs) (columns (set_column f' c vs)) = filter (\<lambda>c. c \<notin> set cs) (columns f)"
    using assms(1,2) by (simp add: set_column_def same_but_def)
  moreover have "list_all2 (\<lambda>r r'. label r' = label r
            \<and> list_all (\<lambda>c. c \<in> set cs \<or> cell_at r' c = cell_at r c) (columns f))
           (rows f) (rows (set_column f' c vs))"
  proof -
    from assms(1) have a: "list_all2 (\<lambda>r r'. label r' = label r
            \<and> list_all (\<lambda>c. c \<in> set cs \<or> cell_at r' c = cell_at r c) (columns f))
           (rows f) (rows f')" by (simp add: same_but_def)
    then have len: "length (rows f) = length (rows f')" by (rule list_all2_lengthD)
    show ?thesis
      unfolding list_all2_conv_all_nth
    proof (intro conjI allI impI)
      show "length (rows f) = length (rows (set_column f' c vs))"
        using rows_set_column [OF assms(3), of c] len by simp
    next
      fix i assume i: "i < length (rows f)"
      then have r: "rows (set_column f' c vs) ! i = set_cell c (rows f' ! i) (vs ! i)"
        using rows_set_column [OF assms(3), of c] len by simp
      from a i have *: "label (rows f' ! i) = label (rows f ! i)"
        and **: "list_all (\<lambda>c. c \<in> set cs \<or> cell_at (rows f' ! i) c = cell_at (rows f ! i) c) (columns f)"
        by (simp_all add: list_all2_conv_all_nth)
      from * show "label (rows (set_column f' c vs) ! i) = label (rows f ! i)"
        unfolding r by (simp add: set_cell_def)
      from ** show "list_all (\<lambda>ca. ca \<in> set cs \<or> cell_at (rows (set_column f' c vs) ! i) ca = cell_at (rows f ! i) ca)
           (columns f)"
        unfolding r using assms(2)
        by (auto simp: list_all_iff cell_at_set_cell)
    qed
  qed
  ultimately show ?thesis by (simp add: same_but_def)
qed

lemma ag_cat_length: "ag_cat f k = Inr cats \<Longrightarrow> length cats = length (rows f)"
  by (drule ag_cat_Inr) simp

lemma map_result_length: "map_result h xs = Inr ys \<Longrightarrow> length ys = length xs"
  by (auto dest!: map_result_Inr list_all2_lengthD)

lemma length_rows_set_column:
  "length vs = length (rows f) \<Longrightarrow> length (rows (set_column f c vs)) = length (rows f)"
  by (simp add: set_column_def)

lemma columns_set_column: "c \<in> set (columns (set_column f c vs))"
  by (simp add: set_column_def)

lemma columns_set_column_mono: "d \<in> set (columns f) \<Longrightarrow> d \<in> set (columns (set_column f c vs))"
  by (simp add: set_column_def)

lemma same_but_bucket:
  assumes "ag_cat f k = Inr cats"
  shows "same_but [''AG_Cat'', ''weights''] f (set_column f ''AG_Cat'' cats)"
  using same_but_refl ag_cat_length [OF assms]
  by (intro same_but_trans_set_column) simp_all

lemma same_but_weights:
  assumes "ag_cat f k = Inr cats" "map_result h cats = Inr ws"
  shows "same_but [''AG_Cat'', ''weights''] f
           (set_column (set_column f ''AG_Cat'' cats) ''weights'' (count_cells ws))"
proof (rule same_but_trans_set_column [OF same_but_bucket [OF assms(1)]])
  show "''weights'' \<in> set [''AG_Cat'', ''weights'']" by simp
  show "length (count_cells ws) = length (rows (set_column f ''AG_Cat'' cats))"
    using ag_cat_length [OF assms(1)] map_result_length [OF assms(2)]
    by (simp add: count_cells_def length_rows_set_column)
qed

lemma resample_frames:
  assumes "resample g results1 results2 nsamples nCats = (r1, r2, out)"
  shows "same_but [''AG_Cat'', ''weights''] results1 r1
     \<and> same_but [''AG_Cat'', ''weights''] results2 r2"
proof (cases "ag_cat results1 nCats")
  case (Inl e)
  with assms show ?thesis by (auto simp: resample_def same_but_refl)
next
  case c1: (Inr cats1)
  show ?thesis
  proof (cases "map_result (counts_at (value_counts (map int [0..<nat nCats]) cats1)) cats1")
    case (Inl e)
    with assms c1 show ?thesis
      by (auto simp: resample_def Let_def same_but_refl same_but_bucket)
  next
    case w1: (Inr ws1)
    note s1 = same_but_weights [OF c1 w1]
    show ?thesis
    proof (cases "ag_cat results2 nCats")
      case (Inl e)
      with assms c1 w1 s1 show ?thesis
        by (auto simp: resample_def Let_def same_but_refl)
    next
      case c2: (Inr cats2)
      show ?thesis
      proof (cases "map_result (counts_at (value_counts (map int [0..<nat nCats]) cats1)) cats2")
        case (Inl e)
        with assms c1 w1 c2 s1 show ?thesis
          by (auto simp: resample_def Let_def same_but_bucket)
      next
        case w2: (Inr ws2)
        note s2 = same_but_weights [OF c2 w2]
        with assms c1 w1 c2 w2 s1 show ?thesis
          by (auto simp: resample_def Let_def)
      qed
    qed
  qed
qed

lemma resample_Inr:
  assumes "resample g results1 results2 nsamples nCats = (r1, r2, Inr s)"
  shows "\<exists>cats1 ws1 cats2 ws2.
           ag_cat results1 nCats = Inr cats1
         \<and> map_result (counts_at (value_counts (map int [0..<nat nCats]) cats1)) cats1 = Inr ws1
         \<and> r1 = set_column (set_column results1 ''AG_Cat'' cats1) ''weights'' (count_cells ws1)
         \<and> ag_cat results2 nCats = Inr cats2
         \<and> map_result (counts_at (value_counts (map int [0..<nat nCats]) cats1)) cats2 = Inr ws2
         \<and> r2 = set_column (set_column results2 ''AG_Cat'' cats2) ''weights'' (count_cells ws2)
         \<and> sample g nsamples (Some ws2) r2 = Inr s"
  using assms
  by (auto simp: resample_def Let_def split: sum.splits)

lemma resample_AgeCat_input: "fst (resample_AgeCat g results n) = results"
  by (simp add: resample_AgeCat_def)

text \<open>
  Claim C7, as the code has it. Whatever \<^verbatim>\<open>resample\<close> does, it leaves in both tables the
  columns other than \<^verbatim>\<open>AG_Cat\<close> and \<^verbatim>\<open>weights\<close>, the labels and the order of the rows and
  every cell outside these two columns as they were; when it returns a sample, both
  tables have the two columns (added, or overwritten when a table had them).
  \<^verbatim>\<open>resample_AgeCat\<close> assigns nothing to its table: it is left exactly as it was.
\<close>

theorem resamplers_frame:
  "(resample g results1 results2 nsamples nCats = (r1, r2, out) \<longrightarrow>
      same_but [''AG_Cat'', ''weights''] results1 r1
      \<and> same_but [''AG_Cat'', ''weights''] results2 r2
      \<and> (\<not> isl out \<longrightarrow>
            ''AG_Cat'' \<in> set (columns r1) \<and> ''weights'' \<in> set (columns r1)
            \<and> ''AG_Cat'' \<in> set (columns r2) \<and> ''weights'' \<in> set (columns r2)))
   \<and> fst (resample_AgeCat g results n) = results"
proof (intro conjI impI)
  assume a: "resample g results1 results2 nsamples nCats = (r1, r2, out)"
  from resample_frames [OF a]
  show "same_but [''AG_Cat'', ''weights''] results1 r1" "same_but [''AG_Cat'', ''weights''] results2 r2"
    by simp_all
  assume "\<not> isl out"
  then obtain s where "out = Inr s" by (cases out) simp_all
  with a have "resample g results1 results2 nsamples nCats = (r1, r2, Inr s)" by simp
  from resample_Inr [OF this] obtain cats1 ws1 cats2 ws2 where
    r1: "r1 = set_column (set_column results1 ''AG_Cat'' cats1) ''weights'' (count_cells ws1)"
    and r2: "r2 = set_column (set_column results2 ''AG_Cat'' cats2) ''weights'' (count_cells ws2)"
    by blast
  show "''AG_Cat'' \<in> set (columns r1)" "''weights'' \<in> set (columns r1)"
    "''AG_Cat'' \<in> set (columns r2)" "''weights'' \<in> set (columns r2)"
    unfolding r1 r2 by (simp_all add: columns_set_column columns_set_column_mono)
next
  show "fst (resample_AgeCat g results n) = results" by (rule resample_AgeCat_input)
qed

lemma example_resample_returns:
  "\<not> isl (snd (snd (resample example_rng reference_table example_table 2 10)))"
  by code_simp

theorem resamplers_frame_witness:
  "\<exists>r1 r2 out.
     resample example_rng reference_table example_table 2 10 = (r1, r2, out) \<and> \<not> isl out
     \<and> same_but [''AG_Cat'', ''weights''] reference_table r1
     \<and> same_but [''AG_Cat'', ''weights''] example_table r2
     \<and> ''AG_Cat'' \<in> set (columns r1) \<and> ''weights'' \<in> set (columns r1)
     \<and> ''AG_Cat'' \<in> set (columns r2) \<and> ''weights'' \<in> set (columns r2)"
proof -
  define res where "res = resample example_rng reference_table example_table 2 10"
  have eq: "resample example_rng reference_table example_table 2 10
      = (fst res, fst (snd res), snd (snd res))"
    by (simp add: res_def)
  have ok: "\<not> isl (snd (snd res))" unfolding res_def by (rule example_resample_returns)
  from resamplers_frame [of example_rng reference_table example_table 2 10
      "fst res" "fst (snd res)" "snd (snd res)"] eq ok
  show ?thesis by blast
qed

theorem resample_AgeCat_adds_no_column_counterexample:
  "''AG_Cat'' \<notin> set (columns (fst (resample_AgeCat example_rng example_table 2)))
   \<and> ''weights'' \<notin> set (columns (fst (resample_AgeCat example_rng example_table 2)))
   \<and> cell_at (hd (rows weighted_table)) ''weights'' = IntV 7
   \<and> cell_at (hd (rows (fst (resample example_rng weighted_table example_table 2 10)))) ''weights'' = IntV 1"
  by code_simp











section \<open>Properties of print_stats\<close>





end
